theory Spec2Isabelle
  imports Main "HOL-Library.AList" "HOL-Library.Multiset"
begin

section \<open>JavaScript values and outcomes\<close>

text \<open>
  A thrown \<open>Error\<close> object carries its message. An \<open>async\<close> method either
  resolves to a value or rejects with the error that escaped it: \<open>Inl\<close> is the
  rejection, \<open>Inr\<close> the resolved value. Strings are lists of 8-bit characters.
\<close>

datatype error = Error (message: string)

type_synonym 'a outcome = "error + 'a"

text \<open>
  Truthiness of an optional number (\<open>undefined\<close> and \<open>0\<close> are falsy) and of an
  optional string (\<open>undefined\<close> and the empty string are falsy). Numbers are integers,
  as the command line produces them with \<open>parseInt\<close>.
\<close>

definition truthy_num :: "int option \<Rightarrow> bool" where
  "truthy_num v = (case v of None \<Rightarrow> False | Some n \<Rightarrow> n \<noteq> 0)"

definition truthy_str :: "string option \<Rightarrow> bool" where
  "truthy_str v = (case v of None \<Rightarrow> False | Some s \<Rightarrow> s \<noteq> [])"

definition dquote :: string where
  "dquote = [CHR 0x22]"

definition squote :: string where
  "squote = [CHR 0x27]"

definition startsWith :: "string \<Rightarrow> string \<Rightarrow> bool" where
  "startsWith s pre = (take (length pre) s = pre)"

definition endsWith :: "string \<Rightarrow> string \<Rightarrow> bool" where
  "endsWith s suf = (length suf \<le> length s \<and> drop (length s - length suf) s = suf)"

definition isWhiteSpace :: "char \<Rightarrow> bool" where
  "isWhiteSpace c = (c \<in> set [CHR 0x09, CHR 0x0A, CHR 0x0B, CHR 0x0C, CHR 0x0D, CHR 0x20, CHR 0xA0])"

definition trim :: "string \<Rightarrow> string" where
  "trim s = rev (dropWhile isWhiteSpace (rev (dropWhile isWhiteSpace s)))"

text \<open>\<open>Array.prototype.slice(start)\<close> with one argument: a negative start counts from the end.\<close>

definition slice :: "'a list \<Rightarrow> int \<Rightarrow> 'a list" where
  "slice xs start =
     (let len = int (length xs);
          k = (if start < 0 then max (len + start) 0 else min start len)
      in drop (nat k) xs)"

text \<open>Decimal rendering of a number inside a template literal.\<close>

fun digits :: "nat \<Rightarrow> string" where
  "digits n = (if n < 10 then [''0123456789'' ! n] else digits (n div 10) @ [''0123456789'' ! (n mod 10)])"

definition string_of_int :: "int \<Rightarrow> string" where
  "string_of_int i = (if i < 0 then CHR ''-'' # digits (nat (- i)) else digits (nat i))"

section \<open>The path module, on normalised POSIX paths\<close>

definition path_join :: "string \<Rightarrow> string \<Rightarrow> string" where
  "path_join d n = d @ ''/'' @ n"

definition dirname :: "string \<Rightarrow> string" where
  "dirname p =
     (let d = rev (drop 1 (dropWhile (\<lambda>c. c \<noteq> CHR ''/'') (rev p)))
      in if d = [] then (if startsWith p ''/'' then ''/'' else ''.'') else d)"

definition basename :: "string \<Rightarrow> string \<Rightarrow> string" where
  "basename p ext =
     (let b = rev (takeWhile (\<lambda>c. c \<noteq> CHR ''/'') (rev p))
      in if endsWith b ext \<and> b \<noteq> ext then take (length b - length ext) b else b)"

section \<open>The filesystem\<close>

text \<open>
  Regular files are kept by full path, in the order in which a directory listing
  enumerates them. \<open>locked\<close> holds the paths whose directory entry the process may not
  remove (a permission was taken away, or another process holds the file): \<open>unlinkSync\<close>
  throws there. Directories carry no metadata and are not enumerated as entries.
\<close>

record inode =
  data :: string
  mtimeMs :: int
  birthtimeMs :: int

record stats =
  size_st :: nat
  mtime :: int
  birthtime :: int

record filesys =
  entries :: "(string \<times> inode) list"
  dirs :: "string list"
  locked :: "string list"

definition isFile :: "filesys \<Rightarrow> string \<Rightarrow> bool" where
  "isFile fs p = (map_of (entries fs) p \<noteq> None)"

definition existsSync :: "filesys \<Rightarrow> string \<Rightarrow> bool" where
  "existsSync fs p = (p \<in> set (dirs fs) \<or> isFile fs p)"

definition statSync :: "filesys \<Rightarrow> string \<Rightarrow> stats outcome" where
  "statSync fs p =
     (case map_of (entries fs) p of
        None \<Rightarrow> Inl (Error (''ENOENT: no such file or directory, stat '' @ squote @ p @ squote))
      | Some i \<Rightarrow> Inr \<lparr>size_st = length (data i), mtime = mtimeMs i, birthtime = birthtimeMs i\<rparr>)"

definition unlinkSync :: "filesys \<Rightarrow> string \<Rightarrow> filesys outcome" where
  "unlinkSync fs p =
     (if \<not> isFile fs p
      then Inl (Error (''ENOENT: no such file or directory, unlink '' @ squote @ p @ squote))
      else if p \<in> set (locked fs)
      then Inl (Error (''EACCES: permission denied, unlink '' @ squote @ p @ squote))
      else Inr (fs\<lparr>entries := AList.delete p (entries fs)\<rparr>))"

definition copyFileSync :: "int \<Rightarrow> filesys \<Rightarrow> string \<Rightarrow> string \<Rightarrow> filesys outcome" where
  "copyFileSync t fs src dst =
     (case map_of (entries fs) src of
        None \<Rightarrow> Inl (Error (''ENOENT: no such file or directory, copyfile '' @ squote @ src @ squote))
      | Some i \<Rightarrow>
          if dirname dst \<notin> set (dirs fs)
          then Inl (Error (''ENOENT: no such file or directory, copyfile '' @ squote @ dst @ squote))
          else Inr (fs\<lparr>entries :=
                 AList.update dst
                   \<lparr>data = data i, mtimeMs = t,
                    birthtimeMs = (case map_of (entries fs) dst of None \<Rightarrow> t | Some old \<Rightarrow> birthtimeMs old)\<rparr>
                   (entries fs)\<rparr>))"

fun strip_prefix :: "string \<Rightarrow> string \<Rightarrow> string option" where
  "strip_prefix [] s = Some s"
| "strip_prefix (c # cs) [] = None"
| "strip_prefix (c # cs) (x # xs) = (if c = x then strip_prefix cs xs else None)"

definition child_name :: "string \<Rightarrow> string \<Rightarrow> string option" where
  "child_name d p =
     (case strip_prefix (d @ ''/'') p of
        None \<Rightarrow> None
      | Some n \<Rightarrow> if n \<noteq> [] \<and> CHR ''/'' \<notin> set n then Some n else None)"

definition readdirSync :: "filesys \<Rightarrow> string \<Rightarrow> string list outcome" where
  "readdirSync fs d =
     (if d \<notin> set (dirs fs)
      then Inl (Error (''ENOTDIR: not a directory, scandir '' @ squote @ d @ squote))
      else Inr (List.map_filter (\<lambda>(p, i). child_name d p) (entries fs)))"


section \<open>The environment of a call\<close>

text \<open>
  The wall clock is read once per call: every \<open>Date.now()\<close> and \<open>new Date()\<close> of one
  call sees the instant \<open>now\<close> (milliseconds since the epoch); \<open>toISOString\<close> is the
  runtime's rendering of an instant. \<open>exec_query\<close> runs a command that only reads the
  filesystem (the integrity check, the digest) and yields its standard output or the
  error of a failed invocation; \<open>exec_backup\<close> runs the engine's hot-copy command, which
  may change the filesystem in any way, also when it fails.
\<close>

record env =
  now :: int
  toISOString :: "int \<Rightarrow> string"
  cwd :: string
  exec_query :: "filesys \<Rightarrow> string \<Rightarrow> string outcome"
  exec_backup :: "filesys \<Rightarrow> string \<Rightarrow> unit outcome \<times> filesys"

record config =
  databasePath :: string
  backupDirectory :: string
  createBackupDir :: bool

section \<open>Options and results\<close>


record backup_options =
  filename :: "string option"
  includeTimestamp :: "bool option"
  verifyIntegrity :: "bool option"
  backupMethod :: "string option"

record backup_info =
  backupPath :: string
  result_filename :: string
  result_size :: nat
  checksum :: "string option"
  duration :: int
  timestamp :: string
  result_method :: string

datatype backup_result =
    BackupSuccess backup_info
  | BackupFailure string string

record cleanup_options =
  retentionDays :: "int option"
  maxBackups :: "int option"
  pattern :: "string option"

record cleanup_info =
  removed :: nat
  removedFiles :: "string list"
  errors :: "string list"
  totalFiles :: nat
  remainingFiles :: int

datatype cleanup_result =
    CleanupSuccess cleanup_info
  | CleanupFailure string nat "string list"

record restore_options =
  targetPath :: "string option"
  verifyBefore :: "bool option"
  createBackupBeforeRestore :: "bool option"

record restore_info =
  restoredFrom :: string
  restoredTo :: string
  preRestoreBackup :: "string option"
  restore_timestamp :: string

datatype restore_result =
    RestoreSuccess restore_info
  | RestoreFailure string string

record backup_file =
  name :: string
  path :: string
  stats :: stats

definition default_to :: "'a \<Rightarrow> 'a option \<Rightarrow> 'a" where
  "default_to d v = (case v of None \<Rightarrow> d | Some x \<Rightarrow> x)"

section \<open>SQLiteBackup\<close>





text \<open>
  \<open>verifyBackup\<close> (lines 110 to 123). The inner \<open>case\<close> is the body of the \<open>try\<close>, the
  outer one its \<open>catch\<close>, which turns every error into \<open>false\<close>.
\<close>

definition verifyBackup :: "env \<Rightarrow> filesys \<Rightarrow> string \<Rightarrow> bool outcome" where
  "verifyBackup e fs p =
     (case (if \<not> existsSync fs p then Inr False
            else case exec_query e fs
                        (''sqlite3 '' @ dquote @ p @ dquote @ '' '' @ dquote @ ''PRAGMA integrity_check;'' @ dquote) of
                   Inl err \<Rightarrow> Inl err
                 | Inr stdout \<Rightarrow> Inr (trim stdout = ''ok'')) of
        Inl err \<Rightarrow> Inr False
      | Inr b \<Rightarrow> Inr b)"

text \<open>\<open>_calculateChecksum\<close> (lines 342 to 349): the first space-delimited field, or \<open>null\<close>.\<close>

definition calculateChecksum :: "env \<Rightarrow> filesys \<Rightarrow> string \<Rightarrow> string option outcome" where
  "calculateChecksum e fs p =
     (case exec_query e fs (''shasum -a 256 '' @ dquote @ p @ dquote) of
        Inl err \<Rightarrow> Inr None
      | Inr stdout \<Rightarrow> Inr (Some (takeWhile (\<lambda>c. c \<noteq> CHR '' '') stdout)))"

text \<open>
  \<open>_generateBackupFilename\<close> (lines 303 to 313); \<open>replace_unsafe\<close> is
  \<open>replace(/[:.]/g, '-')\<close>.
\<close>

definition replace_unsafe :: "string \<Rightarrow> string" where
  "replace_unsafe s = map (\<lambda>c. if c = CHR '':'' \<or> c = CHR ''.'' then CHR ''-'' else c) s"

definition generateBackupFilename :: "env \<Rightarrow> config \<Rightarrow> string option \<Rightarrow> bool \<Rightarrow> string" where
  "generateBackupFilename e this customFilename inclTimestamp =
     (if truthy_str customFilename
      then (let c = default_to [] customFilename
            in if endsWith c ''.db'' then c else c @ ''.db'')
      else
        let baseName = basename (databasePath this) ''.db'';
            ts = (if inclTimestamp then ''-'' @ replace_unsafe (toISOString e (now e)) else [])
        in baseName @ ''-backup'' @ ts @ ''.db'')"

text \<open>The three strategies and their dispatch (lines 315 to 340).\<close>

definition backupUsingBackupCommand :: "env \<Rightarrow> config \<Rightarrow> filesys \<Rightarrow> string \<Rightarrow> unit outcome \<times> filesys" where
  "backupUsingBackupCommand e this fs bp =
     exec_backup e fs
       (''sqlite3 '' @ dquote @ databasePath this @ dquote @ '' '' @ dquote @ ''.backup '' @ squote @ bp @ squote @ dquote)"

definition backupUsingCopy :: "env \<Rightarrow> config \<Rightarrow> filesys \<Rightarrow> string \<Rightarrow> unit outcome \<times> filesys" where
  "backupUsingCopy e this fs bp =
     (case copyFileSync (now e) fs (databasePath this) bp of
        Inl err \<Rightarrow> (Inl err, fs)
      | Inr fs' \<Rightarrow> (Inr (), fs'))"

definition backupUsingVacuum :: "env \<Rightarrow> config \<Rightarrow> filesys \<Rightarrow> string \<Rightarrow> unit outcome \<times> filesys" where
  "backupUsingVacuum e this fs bp =
     exec_backup e fs
       (''sqlite3 '' @ dquote @ databasePath this @ dquote @ '' '' @ dquote @ ''.backup '' @ squote @ bp @ squote @ dquote
          @ '' '' @ dquote @ ''.exit'' @ dquote)"

definition performBackup :: "env \<Rightarrow> config \<Rightarrow> filesys \<Rightarrow> string \<Rightarrow> string \<Rightarrow> unit outcome \<times> filesys" where
  "performBackup e this fs m bp =
     (if m = ''backup'' then backupUsingBackupCommand e this fs bp
      else if m = ''copy'' then backupUsingCopy e this fs bp
      else if m = ''vacuum'' then backupUsingVacuum e this fs bp
      else (Inl (Error (''Unknown backup method: '' @ m)), fs))"

text \<open>\<open>createBackup\<close> (lines 51 to 103).\<close>

text \<open>
  The body of the \<open>try\<close> block of \<open>createBackup\<close>: \<open>Inl\<close> is an error thrown inside it,
  with the filesystem as it was left at that point.
\<close>

definition createBackup_try :: "env \<Rightarrow> config \<Rightarrow> filesys \<Rightarrow> backup_options \<Rightarrow> backup_info outcome \<times> filesys" where
  "createBackup_try e this fs options =
     (let inclTimestamp = default_to True (includeTimestamp options);
          verify = default_to True (verifyIntegrity options);
          m = default_to ''backup'' (backupMethod options);
          startTime = now e;
          backupFileName = generateBackupFilename e this (filename options) inclTimestamp;
          bp = path_join (backupDirectory this) backupFileName
      in case performBackup e this fs m bp of
           (Inl err, fs1) \<Rightarrow> (Inl err, fs1)
         | (Inr u, fs1) \<Rightarrow>
             (case (if verify
                    then (case verifyBackup e fs1 bp of
                            Inl err \<Rightarrow> (Inl err, fs1)
                          | Inr isValid \<Rightarrow>
                              if \<not> isValid
                              then (case unlinkSync fs1 bp of
                                      Inl err \<Rightarrow> (Inl err, fs1)
                                    | Inr fs2 \<Rightarrow> (Inl (Error ''Backup failed integrity check''), fs2))
                              else (Inr (), fs1))
                    else (Inr (), fs1)) of
                (Inl err, fs2) \<Rightarrow> (Inl err, fs2)
              | (Inr u', fs2) \<Rightarrow>
                  (case statSync fs2 bp of
                     Inl err \<Rightarrow> (Inl err, fs2)
                   | Inr st \<Rightarrow>
                       (case calculateChecksum e fs2 bp of
                          Inl err \<Rightarrow> (Inl err, fs2)
                        | Inr digest \<Rightarrow>
                            (Inr \<lparr>backupPath = bp, result_filename = backupFileName,
                                  result_size = size_st st, checksum = digest,
                                  duration = now e - startTime,
                                  timestamp = toISOString e (now e), result_method = m\<rparr>, fs2)))))"

definition createBackup :: "env \<Rightarrow> config \<Rightarrow> filesys \<Rightarrow> backup_options \<Rightarrow> backup_result outcome \<times> filesys" where
  "createBackup e this fs options =
     (case createBackup_try e this fs options of
        (Inr result, fs') \<Rightarrow> (Inr (BackupSuccess result), fs')
      | (Inl err, fs') \<Rightarrow> (Inr (BackupFailure (message err) (toISOString e (now e))), fs'))"




subsection \<open>The catalog\<close>

text \<open>\<open>_matchesPattern\<close> (lines 375 to 383) and \<open>_getBackupFiles\<close> (lines 351 to 373).\<close>

definition matchesPattern :: "string \<Rightarrow> string \<Rightarrow> bool" where
  "matchesPattern fname pat =
     (if pat = ''*'' \<or> pat = ''*.*'' then True
      else if startsWith pat ''*.'' then endsWith fname (''.'' @ drop 2 pat)
      else fname = pat)"

fun collectBackupFiles :: "filesys \<Rightarrow> string \<Rightarrow> string \<Rightarrow> string list \<Rightarrow> backup_file list outcome" where
  "collectBackupFiles fs d pat [] = Inr []"
| "collectBackupFiles fs d pat (fname # rest) =
     (if matchesPattern fname pat
      then (case statSync fs (path_join d fname) of
              Inl err \<Rightarrow> Inl err
            | Inr st \<Rightarrow>
                (case collectBackupFiles fs d pat rest of
                   Inl err \<Rightarrow> Inl err
                 | Inr others \<Rightarrow> Inr (\<lparr>name = fname, path = path_join d fname, stats = st\<rparr> # others)))
      else collectBackupFiles fs d pat rest)"

definition getBackupFiles :: "config \<Rightarrow> filesys \<Rightarrow> string \<Rightarrow> backup_file list outcome" where
  "getBackupFiles this fs pat =
     (if \<not> existsSync fs (backupDirectory this) then Inr []
      else case readdirSync fs (backupDirectory this) of
             Inl err \<Rightarrow> Inl err
           | Inr files \<Rightarrow> collectBackupFiles fs (backupDirectory this) pat files)"

subsection \<open>Retention\<close>

text \<open>
  \<open>cleanup\<close> (lines 133 to 186). \<open>selectFilesToRemove\<close> is the computation of
  \<open>filesToRemove\<close> (lines 146 to 155), \<open>removeFiles\<close> the loop over it (lines 157 to 167)
  with its two accumulators. The guard of line 140 throws outside the \<open>try\<close>, so it
  rejects the call; an error inside the \<open>try\<close> becomes the failure result.
\<close>

text \<open>
  \<open>files.sort((a, b) => b.stats.mtime - a.stats.mtime)\<close>: the engine's sort is stable,
  so it is the stable sort on the negated modification time.
\<close>

definition sort_newest_first :: "backup_file list \<Rightarrow> backup_file list" where
  "sort_newest_first files = sort_key (\<lambda>f. - mtime (stats f)) files"

definition selectFilesToRemove :: "env \<Rightarrow> int option \<Rightarrow> int option \<Rightarrow> backup_file list \<Rightarrow> backup_file list" where
  "selectFilesToRemove e rd mb files =
     (if truthy_num rd
      then (let cutoffDate = now e - (default_to 0 rd * 24 * 60 * 60 * 1000)
            in filter (\<lambda>file. mtime (stats file) < cutoffDate) files)
      else if truthy_num mb
      then slice (sort_newest_first files) (default_to 0 mb)
      else [])"

fun removeFiles :: "filesys \<Rightarrow> backup_file list \<Rightarrow> string list \<Rightarrow> string list
                      \<Rightarrow> string list \<times> string list \<times> filesys" where
  "removeFiles fs [] rem errs = (rem, errs, fs)"
| "removeFiles fs (file # rest) rem errs =
     (case unlinkSync fs (path file) of
        Inr fs' \<Rightarrow> removeFiles fs' rest (rem @ [name file]) errs
      | Inl err \<Rightarrow>
          removeFiles fs rest rem (errs @ [''Failed to remove '' @ name file @ '': '' @ message err]))"

definition cleanup :: "env \<Rightarrow> config \<Rightarrow> filesys \<Rightarrow> cleanup_options \<Rightarrow> cleanup_result outcome \<times> filesys" where
  "cleanup e this fs options =
     (let rd = retentionDays options;
          mb = maxBackups options;
          pat = default_to ''*.db'' (pattern options)
      in if \<not> truthy_num rd \<and> \<not> truthy_num mb
         then (Inl (Error ''Either retentionDays or maxBackups must be specified''), fs)
         else
           (case getBackupFiles this fs pat of
              Inl err \<Rightarrow> (Inr (CleanupFailure (message err) 0 [message err]), fs)
            | Inr files \<Rightarrow>
                (case removeFiles fs (selectFilesToRemove e rd mb files) [] [] of
                   (rem, errs, fs') \<Rightarrow>
                     (Inr (CleanupSuccess
                            \<lparr>removed = length rem, removedFiles = rem, errors = errs,
                             totalFiles = length files,
                             remainingFiles = int (length files) - int (length rem)\<rparr>), fs'))))"

subsection \<open>Restore\<close>

text \<open>
  \<open>restore\<close> (lines 243 to 299): \<open>restore_try\<close> is the body of its \<open>try\<close> block. The
  safety copy is taken by \<open>createBackup\<close> with the default method, of the configured
  database.
\<close>

definition restore_try :: "env \<Rightarrow> config \<Rightarrow> filesys \<Rightarrow> string \<Rightarrow> restore_options \<Rightarrow> restore_info outcome \<times> filesys" where
  "restore_try e this fs bp options =
     (let target = default_to (databasePath this) (targetPath options);
          verify = default_to True (verifyBefore options);
          backupFirst = default_to True (createBackupBeforeRestore options)
      in case (if verify
               then (case verifyBackup e fs bp of
                       Inl err \<Rightarrow> Inl err
                     | Inr isValid \<Rightarrow>
                         if \<not> isValid then Inl (Error ''Backup file failed integrity check'') else Inr ())
               else Inr ()) of
           Inl err \<Rightarrow> (Inl err, fs)
         | Inr u \<Rightarrow>
             (case (if backupFirst \<and> existsSync fs target
                    then (case createBackup e this fs
                                 \<lparr>filename = Some (''pre-restore-backup-'' @ string_of_int (now e) @ ''.db''),
                                  includeTimestamp = Some False, verifyIntegrity = None, backupMethod = None\<rparr> of
                            (Inl err, fs1) \<Rightarrow> (Inl err, fs1)
                          | (Inr (BackupSuccess info), fs1) \<Rightarrow> (Inr (Some (backupPath info)), fs1)
                          | (Inr (BackupFailure msg ts), fs1) \<Rightarrow>
                              (Inl (Error (''Failed to create pre-restore backup: '' @ msg)), fs1))
                    else (Inr None, fs)) of
                (Inl err, fs1) \<Rightarrow> (Inl err, fs1)
              | (Inr currentBackupPath, fs1) \<Rightarrow>
                  (case copyFileSync (now e) fs1 bp target of
                     Inl err \<Rightarrow> (Inl err, fs1)
                   | Inr fs2 \<Rightarrow>
                       (case verifyBackup e fs2 target of
                          Inl err \<Rightarrow> (Inl err, fs2)
                        | Inr restoredIsValid \<Rightarrow>
                            if \<not> restoredIsValid
                            then (Inl (Error ''Restored database failed integrity check''), fs2)
                            else (Inr \<lparr>restoredFrom = bp, restoredTo = target,
                                       preRestoreBackup = currentBackupPath,
                                       restore_timestamp = toISOString e (now e)\<rparr>, fs2)))))"

definition restore :: "env \<Rightarrow> config \<Rightarrow> filesys \<Rightarrow> string \<Rightarrow> restore_options \<Rightarrow> restore_result outcome \<times> filesys" where
  "restore e this fs bp options =
     (case restore_try e this fs bp options of
        (Inr result, fs') \<Rightarrow> (Inr (RestoreSuccess result), fs')
      | (Inl err, fs') \<Rightarrow> (Inr (RestoreFailure (message err) (toISOString e (now e))), fs'))"

subsection \<open>Deletion outcomes\<close>

text \<open>
  For stating what a batch of deletions does: whether \<open>unlinkSync\<close> succeeds on a path,
  and the message of the error it throws when it does not.
\<close>

definition deletable :: "filesys \<Rightarrow> string \<Rightarrow> bool" where
  "deletable fs p = (isFile fs p \<and> p \<notin> set (locked fs))"

definition unlink_message :: "filesys \<Rightarrow> string \<Rightarrow> string" where
  "unlink_message fs p = (case unlinkSync fs p of Inl err \<Rightarrow> message err | Inr fs' \<Rightarrow> [])"

definition failure_line :: "filesys \<Rightarrow> backup_file \<Rightarrow> string" where
  "failure_line fs f = ''Failed to remove '' @ name f @ '': '' @ unlink_message fs (path f)"

section \<open>Concrete inputs\<close>

text \<open>
  A database \<open>/srv/app.db\<close> with its backup directory \<open>/srv/backups\<close>, and an engine
  whose integrity check answers \<open>ok\<close>.
\<close>

definition example_env :: env where
  "example_env =
     \<lparr>now = 1700000000000,
      toISOString = (\<lambda>t. ''2023-11-14T22:13:20.000Z''),
      cwd = ''/srv'',
      exec_query = (\<lambda>fs cmd. Inr (''ok'' @ [CHR 0x0A])),
      exec_backup = (\<lambda>fs cmd. (Inr (), fs))\<rparr>"

definition example_config :: config where
  "example_config =
     \<lparr>databasePath = ''/srv/app.db'', backupDirectory = ''/srv/backups'', createBackupDir = True\<rparr>"

definition example_fs :: filesys where
  "example_fs =
     \<lparr>entries =
        [(''/srv/app.db'',
          \<lparr>data = ''SQLite format 3'', mtimeMs = 1699999990000, birthtimeMs = 1699999000000\<rparr>),
         (''/srv/backups/backup1.db'',
          \<lparr>data = ''SQLite format 3'', mtimeMs = 1699999995000, birthtimeMs = 1699999995000\<rparr>)],
      dirs = [''/'', ''/srv'', ''/srv/backups''],
      locked = []\<rparr>"

text \<open>
  A catalog of three snapshots: \<open>b.db\<close> was modified exactly ten days before the instant
  of \<open>example_env\<close>, \<open>a.db\<close> one millisecond earlier, \<open>c.db\<close> five seconds before it.
\<close>

definition example_files :: "backup_file list" where
  "example_files =
     [\<lparr>name = ''a.db'', path = ''/srv/backups/a.db'',
       stats = \<lparr>size_st = 1, mtime = 1699135999999, birthtime = 0\<rparr>\<rparr>,
      \<lparr>name = ''b.db'', path = ''/srv/backups/b.db'',
       stats = \<lparr>size_st = 1, mtime = 1699136000000, birthtime = 0\<rparr>\<rparr>,
      \<lparr>name = ''c.db'', path = ''/srv/backups/c.db'',
       stats = \<lparr>size_st = 1, mtime = 1699999995000, birthtime = 0\<rparr>\<rparr>]"

text \<open>
  The backup directory with three snapshots, the oldest of which cannot be removed.
\<close>

definition locked_fs :: filesys where
  "locked_fs =
     \<lparr>entries =
        [(''/srv/app.db'', \<lparr>data = ''SQLite format 3'', mtimeMs = 50, birthtimeMs = 50\<rparr>),
         (''/srv/backups/a.db'', \<lparr>data = ''SQLite format 3'', mtimeMs = 100, birthtimeMs = 100\<rparr>),
         (''/srv/backups/b.db'', \<lparr>data = ''SQLite format 3'', mtimeMs = 200, birthtimeMs = 200\<rparr>),
         (''/srv/backups/c.db'', \<lparr>data = ''SQLite format 3'', mtimeMs = 300, birthtimeMs = 300\<rparr>)],
      dirs = [''/'', ''/srv'', ''/srv/backups''],
      locked = [''/srv/backups/a.db'']\<rparr>"

definition locked_catalog :: "backup_file list" where
  "locked_catalog =
     [\<lparr>name = ''a.db'', path = ''/srv/backups/a.db'',
       stats = \<lparr>size_st = 15, mtime = 100, birthtime = 100\<rparr>\<rparr>,
      \<lparr>name = ''b.db'', path = ''/srv/backups/b.db'',
       stats = \<lparr>size_st = 15, mtime = 200, birthtime = 200\<rparr>\<rparr>,
      \<lparr>name = ''c.db'', path = ''/srv/backups/c.db'',
       stats = \<lparr>size_st = 15, mtime = 300, birthtime = 300\<rparr>\<rparr>]"

text \<open>
  An engine whose integrity check fails to run on every file, one whose check reports
  damage on every file, and a backup directory that holds a zero-byte file.
\<close>

definition rejecting_env :: env where
  "rejecting_env =
     \<lparr>now = 1700000000000,
      toISOString = (\<lambda>t. ''2023-11-14T22:13:20.000Z''),
      cwd = ''/srv'',
      exec_query = (\<lambda>fs cmd. Inl (Error ''Command failed: file is not a database'')),
      exec_backup = (\<lambda>fs cmd. (Inr (), fs))\<rparr>"

definition corrupt_env :: env where
  "corrupt_env =
     \<lparr>now = 1700000000000,
      toISOString = (\<lambda>t. ''2023-11-14T22:13:20.000Z''),
      cwd = ''/srv'',
      exec_query = (\<lambda>fs cmd. Inr (''*** in database main ***'' @ [CHR 0x0A] @ ''Page 2 is never used'' @ [CHR 0x0A])),
      exec_backup = (\<lambda>fs cmd. (Inr (), fs))\<rparr>"

definition empty_file_fs :: filesys where
  "empty_file_fs =
     \<lparr>entries =
        [(''/srv/app.db'', \<lparr>data = ''SQLite format 3'', mtimeMs = 50, birthtimeMs = 50\<rparr>),
         (''/srv/backups/empty.db'', \<lparr>data = [], mtimeMs = 100, birthtimeMs = 100\<rparr>)],
      dirs = [''/'', ''/srv'', ''/srv/backups''],
      locked = []\<rparr>"

text \<open>The backup directory that holds the three snapshots of \<open>example_files\<close>, none locked.\<close>

definition aged_fs :: filesys where
  "aged_fs =
     \<lparr>entries =
        [(''/srv/app.db'', \<lparr>data = ''SQLite format 3'', mtimeMs = 50, birthtimeMs = 50\<rparr>),
         (''/srv/backups/a.db'', \<lparr>data = ''x'', mtimeMs = 1699135999999, birthtimeMs = 0\<rparr>),
         (''/srv/backups/b.db'', \<lparr>data = ''x'', mtimeMs = 1699136000000, birthtimeMs = 0\<rparr>),
         (''/srv/backups/c.db'', \<lparr>data = ''x'', mtimeMs = 1699999995000, birthtimeMs = 0\<rparr>)],
      dirs = [''/'', ''/srv'', ''/srv/backups''],
      locked = []\<rparr>"

section \<open>Retention: the configuration guard\<close>

text \<open>
  Claim C1, as the code has it. The guard of \<open>cleanup\<close> tests the truthiness of both
  criteria, and \<open>0\<close> is falsy: with \<open>maxBackups = 0\<close> and no \<open>retentionDays\<close> the call is
  rejected with the configuration error before the catalog is read, whatever the backup
  directory holds, and the filesystem is left as it was. Nothing is removed and no
  result object is produced.
\<close>

theorem cleanup_maxBackups_zero_rejected:
  "cleanup e this fs \<lparr>retentionDays = None, maxBackups = Some 0, pattern = pat\<rparr>
     = (Inl (Error ''Either retentionDays or maxBackups must be specified''), fs)"
  by (simp add: cleanup_def truthy_num_def)

text \<open>
  The claim as the specification states it fails on a backup directory that holds exactly
  one backup file: the call does not succeed, and the file is still there.
\<close>

theorem cleanup_maxBackups_zero_counterexample:
  "getBackupFiles example_config example_fs ''*.db''
     = Inr [\<lparr>name = ''backup1.db'', path = ''/srv/backups/backup1.db'',
             stats = \<lparr>size_st = 15, mtime = 1699999995000, birthtime = 1699999995000\<rparr>\<rparr>]
   \<and> cleanup example_env example_config example_fs
         \<lparr>retentionDays = None, maxBackups = Some 0, pattern = None\<rparr>
       = (Inl (Error ''Either retentionDays or maxBackups must be specified''), example_fs)
   \<and> isFile example_fs ''/srv/backups/backup1.db''"
  by (simp add: cleanup_def truthy_num_def getBackupFiles_def example_config_def example_fs_def
      existsSync_def isFile_def readdirSync_def List.map_filter_def child_name_def
      matchesPattern_def startsWith_def endsWith_def statSync_def path_join_def)

section \<open>Retention: the catalog and the deletion loop\<close>

lemma unlinkSync_deletable:
  "deletable fs p \<Longrightarrow> unlinkSync fs p = Inr (fs\<lparr>entries := AList.delete p (entries fs)\<rparr>)"
  by (simp add: unlinkSync_def deletable_def)

lemma unlinkSync_not_deletable:
  "\<not> deletable fs p \<Longrightarrow> unlinkSync fs p = Inl (Error (unlink_message fs p))"
  by (auto simp: unlinkSync_def deletable_def unlink_message_def)

lemma isFile_delete:
  "isFile (fs\<lparr>entries := AList.delete p (entries fs)\<rparr>) q = (q \<noteq> p \<and> isFile fs q)"
  by (auto simp: isFile_def AList.delete_conv')

lemma deletable_delete:
  "deletable (fs\<lparr>entries := AList.delete p (entries fs)\<rparr>) q = (q \<noteq> p \<and> deletable fs q)"
  by (auto simp: deletable_def isFile_delete)

lemma unlink_message_delete:
  "q \<noteq> p \<Longrightarrow> unlink_message (fs\<lparr>entries := AList.delete p (entries fs)\<rparr>) q = unlink_message fs q"
  by (simp add: unlink_message_def unlinkSync_def isFile_delete)

lemma filter_delete:
  "filter (\<lambda>(p, i). Q p) (AList.delete k al) = filter (\<lambda>(p, i). p \<noteq> k \<and> Q p) al"
  by (induction al) auto

lemma removeFiles_distinct:
  "distinct (map path sel) \<Longrightarrow>
   removeFiles fs sel rem errs =
     (rem @ map name (filter (\<lambda>f. deletable fs (path f)) sel),
      errs @ map (failure_line fs) (filter (\<lambda>f. \<not> deletable fs (path f)) sel),
      fs\<lparr>entries := filter (\<lambda>(p, i). p \<notin> set (map path (filter (\<lambda>f. deletable fs (path f)) sel)))
                         (entries fs)\<rparr>)"
proof (induction sel arbitrary: fs rem errs)
  case Nil
  then show ?case by simp
next
  case (Cons f rest)
  from Cons.prems have dist: "distinct (map path rest)" and notin: "path f \<notin> set (map path rest)"
    by simp_all
  have fresh: "\<forall>g \<in> set rest. path g \<noteq> path f"
  proof
    fix g assume "g \<in> set rest"
    then have "path g \<in> set (map path rest)" by simp
    with notin show "path g \<noteq> path f" by metis
  qed
  show ?case
  proof (cases "deletable fs (path f)")
    case False
    then show ?thesis
      using Cons.IH [OF dist, of fs rem "errs @ [failure_line fs f]"]
      by (simp add: unlinkSync_not_deletable failure_line_def)
  next
    case True
    let ?fs1 = "fs\<lparr>entries := AList.delete (path f) (entries fs)\<rparr>"
    have same: "deletable ?fs1 (path g) = deletable fs (path g)" if "g \<in> set rest" for g
      using that fresh by (simp add: deletable_delete)
    have keep: "filter (\<lambda>g. deletable ?fs1 (path g)) rest = filter (\<lambda>g. deletable fs (path g)) rest"
      by (rule filter_cong) (auto simp: same)
    have drop': "filter (\<lambda>g. \<not> deletable ?fs1 (path g)) rest = filter (\<lambda>g. \<not> deletable fs (path g)) rest"
      by (rule filter_cong) (auto simp: same)
    have lines: "map (failure_line ?fs1) (filter (\<lambda>g. \<not> deletable fs (path g)) rest)
                   = map (failure_line fs) (filter (\<lambda>g. \<not> deletable fs (path g)) rest)"
    proof (rule map_cong [OF refl])
      fix g assume "g \<in> set (filter (\<lambda>g. \<not> deletable fs (path g)) rest)"
      then have "path g \<noteq> path f" using fresh by auto
      then show "failure_line ?fs1 g = failure_line fs g"
        by (simp add: failure_line_def unlink_message_delete)
    qed
    show ?thesis
      using True Cons.IH [OF dist, of ?fs1 "rem @ [name f]" errs]
      by (simp add: unlinkSync_deletable keep drop' lines filter_delete)
  qed
qed


lemma map_of_filter_key:
  "map_of (filter (\<lambda>(k, v). P k) al) k = (if P k then map_of al k else None)"
  by (induction al) auto

lemma strip_prefix_Some: "strip_prefix pre s = Some n \<Longrightarrow> s = pre @ n"
  by (induction pre s rule: strip_prefix.induct) (auto split: if_splits)

lemma child_name_Some: "child_name d p = Some n \<Longrightarrow> p = path_join d n"
  by (auto simp: child_name_def path_join_def split: option.splits if_splits dest: strip_prefix_Some)

lemma readdir_names_distinct:
  "distinct (map fst es) \<Longrightarrow> distinct (List.map_filter (\<lambda>(p, i). child_name d p) es)"
proof (induction es)
  case Nil
  then show ?case by (simp add: List.map_filter_simps)
next
  case (Cons x es)
  obtain p i where x: "x = (p, i)" by (cases x)
  from Cons.prems x have p: "p \<notin> fst ` set es" and d: "distinct (map fst es)" by auto
  show ?case
  proof (cases "child_name d p")
    case None
    with Cons.IH [OF d] x show ?thesis by (simp add: List.map_filter_simps)
  next
    case (Some n)
    have "n \<notin> set (List.map_filter (\<lambda>(p, i). child_name d p) es)"
    proof
      assume "n \<in> set (List.map_filter (\<lambda>(p, i). child_name d p) es)"
      then obtain q j where qj: "(q, j) \<in> set es" and cn: "child_name d q = Some n"
        by (auto simp: List.map_filter_def)
      from cn Some have "q = p" by (auto dest!: child_name_Some)
      with qj p show False by force
    qed
    with Cons.IH [OF d] x Some show ?thesis by (simp add: List.map_filter_simps)
  qed
qed

lemma collectBackupFiles_names:
  "collectBackupFiles fs d pat names = Inr files \<Longrightarrow>
     map name files = filter (\<lambda>n. matchesPattern n pat) names
   \<and> (\<forall>f \<in> set files. path f = path_join d (name f))"
proof (induction names arbitrary: files)
  case Nil
  then show ?case by simp
next
  case (Cons n names)
  show ?case
  proof (cases "matchesPattern n pat")
    case False
    with Cons show ?thesis by simp
  next
    case True
    with Cons.prems obtain st others where
      "collectBackupFiles fs d pat names = Inr others"
      "files = \<lparr>name = n, path = path_join d n, stats = st\<rparr> # others"
      by (auto split: sum.splits)
    with Cons.IH [of others] True show ?thesis by simp
  qed
qed

lemma getBackupFiles_catalog:
  assumes wf: "distinct (map fst (entries fs))"
    and cat: "getBackupFiles this fs pat = Inr files"
  shows "distinct (map path files) \<and> (\<forall>f \<in> set files. path f = path_join (backupDirectory this) (name f))"
proof (cases "existsSync fs (backupDirectory this)")
  case False
  with cat show ?thesis by (simp add: getBackupFiles_def)
next
  case True
  let ?d = "backupDirectory this"
  let ?names = "List.map_filter (\<lambda>(p, i). child_name ?d p) (entries fs)"
  from cat True have col: "collectBackupFiles fs ?d pat ?names = Inr files"
    by (auto simp: getBackupFiles_def readdirSync_def split: if_splits sum.splits)
  from collectBackupFiles_names [OF col]
  have nm: "map name files = filter (\<lambda>n. matchesPattern n pat) ?names"
    and pth: "\<forall>f \<in> set files. path f = path_join ?d (name f)" by simp_all
  have "distinct (map name files)"
    unfolding nm using readdir_names_distinct [OF wf] by simp
  moreover have "map path files = map (path_join ?d) (map name files)"
    using pth by simp
  moreover have "inj_on (path_join ?d) (set (map name files))"
    by (simp add: inj_on_def path_join_def)
  ultimately have "distinct (map path files)"
    by (simp only: distinct_map)
  with pth show ?thesis by simp
qed

lemma slice_is_drop: "\<exists>n. slice xs k = drop n xs"
  by (auto simp: slice_def Let_def)

lemma selectFilesToRemove_distinct:
  assumes "distinct (map path files)"
  shows "distinct (map path (selectFilesToRemove e rd mb files))"
proof -
  have srt: "distinct (map path (sort_newest_first files))"
  proof -
    have "mset (map path (sort_newest_first files)) = mset (map path files)"
      by (simp add: sort_newest_first_def)
    then show ?thesis using assms by (metis mset_eq_imp_distinct_iff)
  qed
  obtain n where n: "slice (sort_newest_first files) (default_to 0 mb) = drop n (sort_newest_first files)"
    using slice_is_drop by blast
  have "distinct (map path (drop n (sort_newest_first files)))"
    using srt by (simp add: drop_map [symmetric])
  with n assms show ?thesis
    by (simp add: selectFilesToRemove_def Let_def distinct_map_filter)
qed

lemma collectBackupFiles_exist:
  "collectBackupFiles fs d pat names = Inr files \<Longrightarrow> \<forall>f \<in> set files. isFile fs (path f)"
proof (induction names arbitrary: files)
  case Nil
  then show ?case by simp
next
  case (Cons n names)
  show ?case
  proof (cases "matchesPattern n pat")
    case False
    with Cons show ?thesis by simp
  next
    case True
    with Cons.prems obtain st others where
      st: "statSync fs (path_join d n) = Inr st"
      and rest: "collectBackupFiles fs d pat names = Inr others"
      and files: "files = \<lparr>name = n, path = path_join d n, stats = st\<rparr> # others"
      by (auto split: sum.splits)
    from st have "isFile fs (path_join d n)"
      by (auto simp: statSync_def isFile_def split: option.splits)
    with Cons.IH [OF rest] files show ?thesis by simp
  qed
qed

lemma getBackupFiles_exist:
  "getBackupFiles this fs pat = Inr files \<Longrightarrow> \<forall>f \<in> set files. isFile fs (path f)"
  by (auto simp: getBackupFiles_def split: if_splits sum.splits dest: collectBackupFiles_exist)

lemma selectFilesToRemove_subset: "set (selectFilesToRemove e rd mb files) \<subseteq> set files"
  by (auto simp: selectFilesToRemove_def Let_def slice_def sort_newest_first_def dest: in_set_dropD)

text \<open>
  What a run of \<open>cleanup\<close> returns once the guard has passed and the catalog has been
  read, on a filesystem in which every path names one file.
\<close>

lemma cleanup_run:
  assumes wf: "distinct (map fst (entries fs))"
    and crit: "truthy_num (retentionDays options) \<or> truthy_num (maxBackups options)"
    and cat: "getBackupFiles this fs (default_to ''*.db'' (pattern options)) = Inr files"
    and sel: "sel = selectFilesToRemove e (retentionDays options) (maxBackups options) files"
    and gone: "gone = filter (\<lambda>f. deletable fs (path f)) sel"
    and kept: "kept = filter (\<lambda>f. \<not> deletable fs (path f)) sel"
  shows "cleanup e this fs options =
           (Inr (CleanupSuccess
                  \<lparr>removed = length gone, removedFiles = map name gone,
                   errors = map (failure_line fs) kept, totalFiles = length files,
                   remainingFiles = int (length files) - int (length gone)\<rparr>),
            fs\<lparr>entries := filter (\<lambda>(p, i). p \<notin> set (map path gone)) (entries fs)\<rparr>)"
proof -
  from getBackupFiles_catalog [OF wf cat] have "distinct (map path files)" by simp
  then have "distinct (map path sel)"
    unfolding sel by (rule selectFilesToRemove_distinct)
  from removeFiles_distinct [OF this, of fs "[]" "[]"]
  have "removeFiles fs sel [] [] =
          (map name gone, map (failure_line fs) kept,
           fs\<lparr>entries := filter (\<lambda>(p, i). p \<notin> set (map path gone)) (entries fs)\<rparr>)"
    by (simp add: gone kept)
  with crit cat show ?thesis
    by (auto simp: cleanup_def Let_def sel)
qed

lemma cleanup_unlocked:
  assumes wf: "distinct (map fst (entries fs))"
    and crit: "truthy_num (retentionDays options) \<or> truthy_num (maxBackups options)"
    and cat: "getBackupFiles this fs (default_to ''*.db'' (pattern options)) = Inr files"
    and sel: "sel = selectFilesToRemove e (retentionDays options) (maxBackups options) files"
    and free: "\<forall>f \<in> set files. path f \<notin> set (locked fs)"
  shows "\<exists>info fs'. cleanup e this fs options = (Inr (CleanupSuccess info), fs')
      \<and> removedFiles info = map name sel \<and> errors info = []
      \<and> removed info = length sel \<and> totalFiles info = length files
      \<and> remainingFiles info = int (length files) - int (length sel)
      \<and> (\<forall>f \<in> set files. isFile fs' (path f) \<longleftrightarrow> f \<notin> set sel)"
proof -
  let ?fs' = "fs\<lparr>entries := filter (\<lambda>(p, i). p \<notin> set (map path sel)) (entries fs)\<rparr>"
  have sub: "set sel \<subseteq> set files"
    unfolding sel by (rule selectFilesToRemove_subset)
  have ex: "\<forall>f \<in> set files. isFile fs (path f)"
    by (rule getBackupFiles_exist [OF cat])
  have del: "\<forall>f \<in> set files. deletable fs (path f)"
    using ex free by (simp add: deletable_def)
  have "filter (\<lambda>f. deletable fs (path f)) sel = sel"
    using del sub by (auto simp: filter_id_conv)
  then have all: "sel = filter (\<lambda>f. deletable fs (path f)) sel" by simp
  have "filter (\<lambda>f. \<not> deletable fs (path f)) sel = []"
    using del sub by (auto simp: filter_empty_conv)
  then have none: "[] = filter (\<lambda>f. \<not> deletable fs (path f)) sel" by simp
  have inj: "inj_on path (set files)"
    using getBackupFiles_catalog [OF wf cat] by (simp add: distinct_map)
  have run: "cleanup e this fs options =
           (Inr (CleanupSuccess
                  \<lparr>removed = length sel, removedFiles = map name sel,
                   errors = map (failure_line fs) [], totalFiles = length files,
                   remainingFiles = int (length files) - int (length sel)\<rparr>), ?fs')"
    by (rule cleanup_run [OF wf crit cat sel all none])
  have "isFile ?fs' (path f) \<longleftrightarrow> f \<notin> set sel" if f: "f \<in> set files" for f
  proof -
    have "path f \<in> path ` set sel \<longleftrightarrow> f \<in> set sel"
    proof
      assume "path f \<in> path ` set sel"
      then obtain g where g: "g \<in> set sel" "path g = path f" by auto
      with sub f inj have "g = f" by (auto dest: inj_onD)
      with g show "f \<in> set sel" by simp
    qed simp
    with ex f show ?thesis by (simp add: isFile_def map_of_filter_key)
  qed
  with run show ?thesis by simp
qed

section \<open>Retention: selection by age\<close>

text \<open>
  Claim C2. For every catalog and every positive \<open>retentionDays\<close>, the files selected for
  removal are exactly the catalog entries whose modification time is strictly before the
  cutoff instant, now minus \<open>retentionDays\<close> days (in catalog order, whatever \<open>maxBackups\<close>
  is); an entry modified exactly at the cutoff is not selected. Run on a backup directory
  whose snapshots can all be deleted, \<open>cleanup\<close> removes exactly the selected files:
  afterwards a snapshot of the catalog is still there if and only if it was not modified
  strictly before the cutoff.
\<close>

theorem cleanup_age_selection:
  assumes "0 < days"
  shows "selectFilesToRemove e (Some days) mb files
           = filter (\<lambda>f. mtime (stats f) < now e - days * 86400000) files
       \<and> set (selectFilesToRemove e (Some days) mb files)
           = {f \<in> set files. mtime (stats f) < now e - days * 86400000}
       \<and> (\<forall>f \<in> set files. mtime (stats f) = now e - days * 86400000
             \<longrightarrow> f \<notin> set (selectFilesToRemove e (Some days) mb files))
       \<and> (distinct (map fst (entries fs))
            \<and> getBackupFiles this fs (default_to ''*.db'' pat) = Inr files
            \<and> (\<forall>f \<in> set files. path f \<notin> set (locked fs)) \<longrightarrow>
          (\<exists>info fs'.
              cleanup e this fs \<lparr>retentionDays = Some days, maxBackups = mb, pattern = pat\<rparr>
                = (Inr (CleanupSuccess info), fs')
            \<and> removedFiles info
                = map name (filter (\<lambda>f. mtime (stats f) < now e - days * 86400000) files)
            \<and> errors info = []
            \<and> (\<forall>f \<in> set files.
                  isFile fs' (path f) \<longleftrightarrow> \<not> mtime (stats f) < now e - days * 86400000)))"
proof -
  let ?options = "\<lparr>retentionDays = Some days, maxBackups = mb, pattern = pat\<rparr>"
  let ?old = "filter (\<lambda>f. mtime (stats f) < now e - days * 86400000) files"
  have sel: "selectFilesToRemove e (Some days) mb files = ?old"
    using assms by (simp add: selectFilesToRemove_def truthy_num_def default_to_def mult.commute)
  have run: "\<exists>info fs'. cleanup e this fs ?options = (Inr (CleanupSuccess info), fs')
            \<and> removedFiles info = map name ?old \<and> errors info = []
            \<and> (\<forall>f \<in> set files. isFile fs' (path f) \<longleftrightarrow> \<not> mtime (stats f) < now e - days * 86400000)"
    if wf: "distinct (map fst (entries fs))"
      and cat: "getBackupFiles this fs (default_to ''*.db'' pat) = Inr files"
      and free: "\<forall>f \<in> set files. path f \<notin> set (locked fs)"
  proof -
    have crit: "truthy_num (retentionDays ?options) \<or> truthy_num (maxBackups ?options)"
      using assms by (simp add: truthy_num_def)
    have cat': "getBackupFiles this fs (default_to ''*.db'' (pattern ?options)) = Inr files"
      using cat by simp
    have sel': "?old = selectFilesToRemove e (retentionDays ?options) (maxBackups ?options) files"
      using sel by simp
    from cleanup_unlocked [OF wf crit cat' sel' free] show ?thesis
      by auto
  qed
  from sel run show ?thesis by auto
qed

lemma aged_catalog_listing: "getBackupFiles example_config aged_fs ''*.db'' = Inr example_files"
  by (simp add: getBackupFiles_def example_config_def aged_fs_def example_files_def
      existsSync_def isFile_def readdirSync_def List.map_filter_def child_name_def
      matchesPattern_def startsWith_def endsWith_def statSync_def path_join_def)

theorem cleanup_age_selection_witness:
  "(0::int) < 10
   \<and> distinct (map fst (entries aged_fs))
   \<and> getBackupFiles example_config aged_fs (default_to ''*.db'' None) = Inr example_files
   \<and> locked aged_fs = []
   \<and> mtime (stats (example_files ! 1)) = now example_env - 10 * 86400000
   \<and> selectFilesToRemove example_env (Some 10) None example_files = [hd example_files]
   \<and> (\<exists>info fs'.
         cleanup example_env example_config aged_fs
           \<lparr>retentionDays = Some 10, maxBackups = None, pattern = None\<rparr> = (Inr (CleanupSuccess info), fs')
       \<and> removedFiles info = [''a.db''] \<and> errors info = []
       \<and> \<not> isFile fs' ''/srv/backups/a.db''
       \<and> isFile fs' ''/srv/backups/b.db''
       \<and> isFile fs' ''/srv/backups/c.db'')"
proof -
  have h: "(0::int) < 10" by simp
  have wf: "distinct (map fst (entries aged_fs))"
    by (simp add: aged_fs_def)
  have cat: "getBackupFiles example_config aged_fs (default_to ''*.db'' None) = Inr example_files"
    by (simp add: default_to_def aged_catalog_listing)
  have free: "\<forall>f \<in> set example_files. path f \<notin> set (locked aged_fs)"
    by (simp add: aged_fs_def)
  show ?thesis
    using cleanup_age_selection [OF h, of example_env None example_files aged_fs example_config None]
      wf cat free
    by (simp add: example_env_def) (auto simp: example_files_def aged_fs_def)
qed

section \<open>Retention: selection by count\<close>

lemma sort_newest_first_sorted:
  "sorted_wrt (\<lambda>a b. mtime (stats b) \<le> mtime (stats a)) (sort_newest_first files)"
proof -
  have "sorted (map (\<lambda>f. - mtime (stats f)) (sort_newest_first files))"
    unfolding sort_newest_first_def by (rule sorted_sort_key)
  then show ?thesis by (simp add: sorted_map)
qed

lemma sort_newest_first_mset: "mset (sort_newest_first files) = mset files"
  by (simp add: sort_newest_first_def)

lemma sort_newest_first_stable:
  "filter (\<lambda>f. mtime (stats f) = t) (sort_newest_first files) = filter (\<lambda>f. mtime (stats f) = t) files"
proof -
  have "filter (\<lambda>f. - mtime (stats f) = - t) (sort_key (\<lambda>f. - mtime (stats f)) files)
          = filter (\<lambda>f. - mtime (stats f) = - t) files"
    by (rule sort_key_stable)
  then show ?thesis by (simp add: sort_newest_first_def)
qed

lemma slice_positive: "0 < k \<Longrightarrow> slice xs k = drop (nat k) xs"
  by (auto simp: slice_def Let_def min_def)

lemma newer_before_older:
  assumes srt: "sorted_wrt (\<lambda>a b. mtime (stats b) \<le> mtime (stats a)) xs"
    and dist: "distinct (map (\<lambda>f. mtime (stats f)) xs)"
    and s: "s \<in> set (take n xs)" and r: "r \<in> set (drop n xs)"
  shows "mtime (stats r) < mtime (stats s)"
proof -
  from srt have "sorted_wrt (\<lambda>a b. mtime (stats b) \<le> mtime (stats a)) (take n xs @ drop n xs)"
    by simp
  then have le: "mtime (stats r) \<le> mtime (stats s)"
    using s r unfolding sorted_wrt_append by blast
  from dist have "distinct (map (\<lambda>f. mtime (stats f)) (take n xs) @ map (\<lambda>f. mtime (stats f)) (drop n xs))"
    by (metis append_take_drop_id map_append)
  then have "mtime (stats s) \<noteq> mtime (stats r)"
    using s r by auto
  with le show ?thesis by simp
qed

text \<open>
  Claim C3. With a positive \<open>maxBackups = k\<close> and no age criterion, the catalog is sorted
  descending by modification time (a permutation of the catalog); entries with equal
  modification times keep their catalog order, which is the deterministic tie-break; the
  first \<open>k\<close> sorted entries are retained and every entry beyond index \<open>k\<close> is selected for
  removal. With distinct modification times and \<open>k < N\<close>, exactly \<open>N - k\<close> files are
  selected, \<open>k\<close> survive, and every survivor is more recently modified than every
  selected file. Run with \<open>k < N\<close> on a backup directory whose snapshots can all be
  deleted, \<open>cleanup\<close> reports \<open>N - k\<close> removed and \<open>k\<close> remaining; afterwards the first
  \<open>k\<close> sorted entries are still there and the others are gone.
\<close>

theorem cleanup_count_selection:
  assumes k: "0 < k" and rd: "\<not> truthy_num rd"
  shows "sorted_wrt (\<lambda>a b. mtime (stats b) \<le> mtime (stats a)) (sort_newest_first files)
       \<and> mset (sort_newest_first files) = mset files
       \<and> (\<forall>t. filter (\<lambda>f. mtime (stats f) = t) (sort_newest_first files)
                = filter (\<lambda>f. mtime (stats f) = t) files)
       \<and> selectFilesToRemove e rd (Some k) files = drop (nat k) (sort_newest_first files)
       \<and> take (nat k) (sort_newest_first files) @ selectFilesToRemove e rd (Some k) files
           = sort_newest_first files
       \<and> (distinct (map (\<lambda>f. mtime (stats f)) files) \<and> nat k < length files \<longrightarrow>
            length (selectFilesToRemove e rd (Some k) files) = length files - nat k
          \<and> length (take (nat k) (sort_newest_first files)) = nat k
          \<and> (\<forall>s \<in> set (take (nat k) (sort_newest_first files)).
               \<forall>r \<in> set (selectFilesToRemove e rd (Some k) files).
                 mtime (stats r) < mtime (stats s)))
       \<and> (distinct (map fst (entries fs))
            \<and> getBackupFiles this fs (default_to ''*.db'' pat) = Inr files
            \<and> (\<forall>f \<in> set files. path f \<notin> set (locked fs))
            \<and> nat k < length files \<longrightarrow>
          (\<exists>info fs'.
              cleanup e this fs \<lparr>retentionDays = rd, maxBackups = Some k, pattern = pat\<rparr>
                = (Inr (CleanupSuccess info), fs')
            \<and> removedFiles info = map name (drop (nat k) (sort_newest_first files))
            \<and> errors info = []
            \<and> removed info = length files - nat k
            \<and> remainingFiles info = k
            \<and> (\<forall>f \<in> set (take (nat k) (sort_newest_first files)). isFile fs' (path f))
            \<and> (\<forall>f \<in> set (drop (nat k) (sort_newest_first files)). \<not> isFile fs' (path f))))"
proof -
  let ?sorted = "sort_newest_first files"
  let ?options = "\<lparr>retentionDays = rd, maxBackups = Some k, pattern = pat\<rparr>"
  have sel: "selectFilesToRemove e rd (Some k) files = drop (nat k) ?sorted"
    using k rd by (simp add: selectFilesToRemove_def truthy_num_def default_to_def slice_positive)
  have len: "length ?sorted = length files"
    by (simp add: sort_newest_first_def)
  have newer: "\<forall>s \<in> set (take (nat k) ?sorted). \<forall>r \<in> set (drop (nat k) ?sorted).
                 mtime (stats r) < mtime (stats s)"
    if dist: "distinct (map (\<lambda>f. mtime (stats f)) files)"
  proof -
    have "mset (map (\<lambda>f. mtime (stats f)) ?sorted) = mset (map (\<lambda>f. mtime (stats f)) files)"
      by (simp add: sort_newest_first_mset)
    then have "distinct (map (\<lambda>f. mtime (stats f)) ?sorted)"
      using dist by (metis mset_eq_imp_distinct_iff)
    then show ?thesis
      using newer_before_older [OF sort_newest_first_sorted] by blast
  qed
  have run: "\<exists>info fs'. cleanup e this fs ?options = (Inr (CleanupSuccess info), fs')
            \<and> removedFiles info = map name (drop (nat k) ?sorted)
            \<and> errors info = []
            \<and> removed info = length files - nat k
            \<and> remainingFiles info = k
            \<and> (\<forall>f \<in> set (take (nat k) ?sorted). isFile fs' (path f))
            \<and> (\<forall>f \<in> set (drop (nat k) ?sorted). \<not> isFile fs' (path f))"
    if wf: "distinct (map fst (entries fs))"
      and cat: "getBackupFiles this fs (default_to ''*.db'' pat) = Inr files"
      and free: "\<forall>f \<in> set files. path f \<notin> set (locked fs)"
      and few: "nat k < length files"
  proof -
    have crit: "truthy_num (retentionDays ?options) \<or> truthy_num (maxBackups ?options)"
      using k by (simp add: truthy_num_def)
    have cat': "getBackupFiles this fs (default_to ''*.db'' (pattern ?options)) = Inr files"
      using cat by simp
    have sel': "drop (nat k) ?sorted
                  = selectFilesToRemove e (retentionDays ?options) (maxBackups ?options) files"
      using sel by simp
    from cleanup_unlocked [OF wf crit cat' sel' free]
    obtain info fs' where out: "cleanup e this fs ?options = (Inr (CleanupSuccess info), fs')"
      and rf: "removedFiles info = map name (drop (nat k) ?sorted)" and er: "errors info = []"
      and rm: "removed info = length (drop (nat k) ?sorted)"
      and rem: "remainingFiles info = int (length files) - int (length (drop (nat k) ?sorted))"
      and there: "\<forall>f \<in> set files. isFile fs' (path f) \<longleftrightarrow> f \<notin> set (drop (nat k) ?sorted)"
      by blast
    have "distinct (map path files)"
      using getBackupFiles_catalog [OF wf cat] by simp
    then have "distinct files" by (simp add: distinct_map)
    then have "distinct (take (nat k) ?sorted @ drop (nat k) ?sorted)"
      by (simp add: sort_newest_first_def)
    then have apart: "set (take (nat k) ?sorted) \<inter> set (drop (nat k) ?sorted) = {}"
      by (simp only: distinct_append)
    have members: "set ?sorted = set files"
      by (simp add: sort_newest_first_def)
    have kept: "\<forall>f \<in> set (take (nat k) ?sorted). isFile fs' (path f)"
    proof
      fix f assume f: "f \<in> set (take (nat k) ?sorted)"
      then have "f \<in> set files" using members by (auto dest: in_set_takeD)
      moreover have "f \<notin> set (drop (nat k) ?sorted)" using f apart by auto
      ultimately show "isFile fs' (path f)" using there by simp
    qed
    have gone: "\<forall>f \<in> set (drop (nat k) ?sorted). \<not> isFile fs' (path f)"
    proof
      fix f assume f: "f \<in> set (drop (nat k) ?sorted)"
      then have "f \<in> set files" using members by (auto dest: in_set_dropD)
      with f there show "\<not> isFile fs' (path f)" by simp
    qed
    have "removed info = length files - nat k"
      using rm len by simp
    moreover have "remainingFiles info = k"
      using rem len few k by simp
    ultimately show ?thesis
      using out rf er kept gone by blast
  qed
  show ?thesis
    using sort_newest_first_sorted sort_newest_first_mset sort_newest_first_stable sel len newer run
    by simp
qed

theorem cleanup_count_selection_witness:
  "(0::int) < 2 \<and> \<not> truthy_num None
   \<and> distinct (map (\<lambda>f. mtime (stats f)) example_files) \<and> nat 2 < length example_files
   \<and> distinct (map fst (entries aged_fs))
   \<and> getBackupFiles example_config aged_fs (default_to ''*.db'' None) = Inr example_files
   \<and> locked aged_fs = []
   \<and> selectFilesToRemove example_env None (Some 2) example_files = [hd example_files]
   \<and> take (nat 2) (sort_newest_first example_files) = [example_files ! 2, example_files ! 1]
   \<and> length (selectFilesToRemove example_env None (Some 2) example_files) = length example_files - nat 2
   \<and> (\<exists>info fs'.
         cleanup example_env example_config aged_fs
           \<lparr>retentionDays = None, maxBackups = Some 2, pattern = None\<rparr> = (Inr (CleanupSuccess info), fs')
       \<and> removedFiles info = [''a.db''] \<and> errors info = []
       \<and> removed info = 1 \<and> remainingFiles info = 2
       \<and> \<not> isFile fs' ''/srv/backups/a.db''
       \<and> isFile fs' ''/srv/backups/b.db''
       \<and> isFile fs' ''/srv/backups/c.db'')"
proof -
  have k: "(0::int) < 2" by simp
  have rd: "\<not> truthy_num None" by (simp add: truthy_num_def)
  have srt: "sort_newest_first example_files = rev example_files"
    by (simp add: sort_newest_first_def example_files_def)
  have wf: "distinct (map fst (entries aged_fs))"
    by (simp add: aged_fs_def)
  have cat: "getBackupFiles example_config aged_fs (default_to ''*.db'' None) = Inr example_files"
    by (simp add: default_to_def aged_catalog_listing)
  have free: "\<forall>f \<in> set example_files. path f \<notin> set (locked aged_fs)"
    by (simp add: aged_fs_def)
  have dist: "distinct (map (\<lambda>f. mtime (stats f)) example_files)" and few: "nat 2 < length example_files"
    by (simp_all add: example_files_def)
  show ?thesis
    using cleanup_count_selection [OF k rd, of example_files example_env aged_fs example_config None]
      wf cat free dist few
    by (simp add: srt truthy_num_def) (auto simp: example_files_def aged_fs_def)
qed

section \<open>Retention: deleting the selected files\<close>

text \<open>
  Claim C4. Once the catalog has been read and a criterion is set, \<open>cleanup\<close> always
  reports success, whatever the individual deletions do. Every selected file gets its own
  deletion attempt: the names of those whose deletion succeeds make up \<open>removedFiles\<close>, each
  of the others contributes one line to \<open>errors\<close>, and the two lists together account for
  the whole selection, so a failure never stops the batch. \<open>removed\<close> counts the successes
  only, and \<open>remainingFiles = totalFiles - removed\<close>. Afterwards every selected file
  that could be deleted is gone, every selected file that could not is still in place and
  is not counted as removed, and no other file has changed.
\<close>

theorem cleanup_partial_failure:
  assumes wf: "distinct (map fst (entries fs))"
    and crit: "truthy_num (retentionDays options) \<or> truthy_num (maxBackups options)"
    and cat: "getBackupFiles this fs (default_to ''*.db'' (pattern options)) = Inr files"
    and sel: "sel = selectFilesToRemove e (retentionDays options) (maxBackups options) files"
  shows "\<exists>info fs'. cleanup e this fs options = (Inr (CleanupSuccess info), fs')
      \<and> removedFiles info = map name (filter (\<lambda>f. deletable fs (path f)) sel)
      \<and> errors info = map (failure_line fs) (filter (\<lambda>f. \<not> deletable fs (path f)) sel)
      \<and> removed info = length (removedFiles info)
      \<and> removed info + length (errors info) = length sel
      \<and> totalFiles info = length files
      \<and> remainingFiles info = int (totalFiles info) - int (removed info)
      \<and> (\<forall>f \<in> set sel. deletable fs (path f) \<longrightarrow> \<not> isFile fs' (path f))
      \<and> (\<forall>f \<in> set sel. \<not> deletable fs (path f) \<longrightarrow>
            name f \<notin> set (removedFiles info) \<and> map_of (entries fs') (path f) = map_of (entries fs) (path f))
      \<and> (\<forall>p. p \<notin> path ` set sel \<longrightarrow> map_of (entries fs') p = map_of (entries fs) p)"
proof -
  let ?gone = "filter (\<lambda>f. deletable fs (path f)) sel"
  let ?kept = "filter (\<lambda>f. \<not> deletable fs (path f)) sel"
  let ?fs' = "fs\<lparr>entries := filter (\<lambda>(p, i). p \<notin> set (map path ?gone)) (entries fs)\<rparr>"
  let ?info = "\<lparr>removed = length ?gone, removedFiles = map name ?gone,
                errors = map (failure_line fs) ?kept, totalFiles = length files,
                remainingFiles = int (length files) - int (length ?gone)\<rparr>"
  from getBackupFiles_catalog [OF wf cat]
  have pth: "\<forall>f \<in> set files. path f = path_join (backupDirectory this) (name f)" by simp
  have run: "cleanup e this fs options = (Inr (CleanupSuccess ?info), ?fs')"
    by (rule cleanup_run [OF wf crit cat sel refl refl])
  have subset: "set sel \<subseteq> set files"
    unfolding sel by (rule selectFilesToRemove_subset)
  have count: "length ?gone + length ?kept = length sel"
    by (rule sum_length_filter_compl)
  have gone: "\<forall>f \<in> set sel. deletable fs (path f) \<longrightarrow> \<not> isFile ?fs' (path f)"
    by (auto simp: isFile_def map_of_filter_key)
  have kept: "\<forall>f \<in> set sel. \<not> deletable fs (path f) \<longrightarrow>
            name f \<notin> set (map name ?gone) \<and> map_of (entries ?fs') (path f) = map_of (entries fs) (path f)"
  proof (intro ballI impI conjI)
    fix f assume f: "f \<in> set sel" and nd: "\<not> deletable fs (path f)"
    show "name f \<notin> set (map name ?gone)"
    proof
      assume "name f \<in> set (map name ?gone)"
      then obtain g where g: "g \<in> set sel" "deletable fs (path g)" "name g = name f" by auto
      with f subset pth have "path g = path f" by (metis subsetD)
      with g nd show False by simp
    qed
    have "path f \<notin> set (map path ?gone)"
      using nd by auto
    then show "map_of (entries ?fs') (path f) = map_of (entries fs) (path f)"
      by (simp add: map_of_filter_key)
  qed
  have frame: "\<forall>p. p \<notin> path ` set sel \<longrightarrow> map_of (entries ?fs') p = map_of (entries fs) p"
    by (auto simp: map_of_filter_key)
  show ?thesis
    apply (rule exI [of _ ?info])
    apply (rule exI [of _ ?fs'])
    using run count gone kept frame by simp
qed

lemma locked_catalog_listing: "getBackupFiles example_config locked_fs ''*.db'' = Inr locked_catalog"
  by (simp add: getBackupFiles_def example_config_def locked_fs_def locked_catalog_def
      existsSync_def isFile_def readdirSync_def List.map_filter_def child_name_def
      matchesPattern_def startsWith_def endsWith_def statSync_def path_join_def)

lemma locked_catalog_selection:
  "selectFilesToRemove example_env None (Some 1) locked_catalog
     = [\<lparr>name = ''b.db'', path = ''/srv/backups/b.db'', stats = \<lparr>size_st = 15, mtime = 200, birthtime = 200\<rparr>\<rparr>,
        \<lparr>name = ''a.db'', path = ''/srv/backups/a.db'', stats = \<lparr>size_st = 15, mtime = 100, birthtime = 100\<rparr>\<rparr>]"
  by (simp add: selectFilesToRemove_def truthy_num_def default_to_def slice_def sort_newest_first_def
      locked_catalog_def)

theorem cleanup_partial_failure_witness:
  "distinct (map fst (entries locked_fs))
   \<and> (truthy_num None \<or> truthy_num (Some 1))
   \<and> getBackupFiles example_config locked_fs ''*.db'' = Inr locked_catalog
   \<and> (\<exists>info fs'.
         cleanup example_env example_config locked_fs
           \<lparr>retentionDays = None, maxBackups = Some 1, pattern = None\<rparr> = (Inr (CleanupSuccess info), fs')
       \<and> removedFiles info = [''b.db'']
       \<and> errors info = [''Failed to remove a.db: EACCES: permission denied, unlink '' @ squote @ ''/srv/backups/a.db'' @ squote]
       \<and> removed info = 1 \<and> totalFiles info = 3 \<and> remainingFiles info = 2
       \<and> \<not> isFile fs' ''/srv/backups/b.db''
       \<and> map_of (entries fs') ''/srv/backups/a.db'' = map_of (entries locked_fs) ''/srv/backups/a.db'')"
proof -
  have wf: "distinct (map fst (entries locked_fs))"
    by (simp add: locked_fs_def)
  have crit: "truthy_num (retentionDays \<lparr>retentionDays = None, maxBackups = Some 1, pattern = None\<rparr>)
            \<or> truthy_num (maxBackups \<lparr>retentionDays = None, maxBackups = Some 1, pattern = None\<rparr>)"
    by (simp add: truthy_num_def)
  have cat: "getBackupFiles example_config locked_fs
               (default_to ''*.db'' (pattern \<lparr>retentionDays = None, maxBackups = Some 1, pattern = None\<rparr>))
             = Inr locked_catalog"
    by (simp add: default_to_def locked_catalog_listing)
  have sel: "[\<lparr>name = ''b.db'', path = ''/srv/backups/b.db'', stats = \<lparr>size_st = 15, mtime = 200, birthtime = 200\<rparr>\<rparr>,
              \<lparr>name = ''a.db'', path = ''/srv/backups/a.db'', stats = \<lparr>size_st = 15, mtime = 100, birthtime = 100\<rparr>\<rparr>]
               = selectFilesToRemove example_env
                   (retentionDays \<lparr>retentionDays = None, maxBackups = Some 1, pattern = None\<rparr>)
                   (maxBackups \<lparr>retentionDays = None, maxBackups = Some 1, pattern = None\<rparr>) locked_catalog"
    by (simp add: locked_catalog_selection)
  have del_b: "deletable locked_fs ''/srv/backups/b.db''"
    by (simp add: deletable_def isFile_def locked_fs_def)
  have del_a: "\<not> deletable locked_fs ''/srv/backups/a.db''"
    by (simp add: deletable_def isFile_def locked_fs_def)
  have msg: "unlink_message locked_fs ''/srv/backups/a.db''
               = ''EACCES: permission denied, unlink '' @ squote @ ''/srv/backups/a.db'' @ squote"
    by (simp add: unlink_message_def unlinkSync_def isFile_def locked_fs_def)
  have len: "length locked_catalog = 3"
    by (simp add: locked_catalog_def)
  from cleanup_partial_failure [OF wf crit cat sel]
  obtain info fs' where
    "cleanup example_env example_config locked_fs
       \<lparr>retentionDays = None, maxBackups = Some 1, pattern = None\<rparr> = (Inr (CleanupSuccess info), fs')"
    "removedFiles info = [''b.db'']"
    "errors info = [''Failed to remove a.db: EACCES: permission denied, unlink '' @ squote @ ''/srv/backups/a.db'' @ squote]"
    "removed info = 1" "totalFiles info = 3" "remainingFiles info = 2"
    "\<not> isFile fs' ''/srv/backups/b.db''"
    "map_of (entries fs') ''/srv/backups/a.db'' = map_of (entries locked_fs) ''/srv/backups/a.db''"
    by (auto simp: del_a del_b msg len failure_line_def)
  then show ?thesis
    using wf locked_catalog_listing by (auto simp: truthy_num_def)
qed

section \<open>Restore\<close>

text \<open>
  Claim C5. When \<open>verifyBefore\<close> is enabled (it is unless the caller passes \<open>false\<close>) and
  the verifier rejects the candidate snapshot, \<open>restore\<close> returns the failure result
  \<open>Backup file failed integrity check\<close> and hands back the filesystem it was given: the
  file at the target path has its bytes and metadata untouched and no pre-restore snapshot
  has been written.
\<close>

theorem restore_rejects_bad_snapshot:
  assumes "verifyBefore options \<noteq> Some False"
    and "verifyBackup e fs bp = Inr False"
  shows "restore e this fs bp options
           = (Inr (RestoreFailure ''Backup file failed integrity check'' (toISOString e (now e))), fs)
       \<and> map_of (entries (snd (restore e this fs bp options))) (default_to (databasePath this) (targetPath options))
           = map_of (entries fs) (default_to (databasePath this) (targetPath options))
       \<and> getBackupFiles this (snd (restore e this fs bp options)) pat = getBackupFiles this fs pat"
proof -
  have "restore e this fs bp options
           = (Inr (RestoreFailure ''Backup file failed integrity check'' (toISOString e (now e))), fs)"
    using assms
    by (cases "verifyBefore options") (auto simp: restore_def restore_try_def default_to_def Let_def)
  then show ?thesis by simp
qed

theorem restore_rejects_bad_snapshot_witness:
  "verifyBefore \<lparr>targetPath = None, verifyBefore = None, createBackupBeforeRestore = None\<rparr> \<noteq> Some False
   \<and> verifyBackup rejecting_env example_fs ''/srv/backups/backup1.db'' = Inr False
   \<and> restore rejecting_env example_config example_fs ''/srv/backups/backup1.db''
         \<lparr>targetPath = None, verifyBefore = None, createBackupBeforeRestore = None\<rparr>
       = (Inr (RestoreFailure ''Backup file failed integrity check'' ''2023-11-14T22:13:20.000Z''), example_fs)"
proof -
  have a: "verifyBefore \<lparr>targetPath = None, verifyBefore = None, createBackupBeforeRestore = None\<rparr> \<noteq> Some False"
    by simp
  have b: "verifyBackup rejecting_env example_fs ''/srv/backups/backup1.db'' = Inr False"
    by (simp add: verifyBackup_def rejecting_env_def)
  show ?thesis
    using restore_rejects_bad_snapshot [OF a b, of example_config] a b
    by (simp add: rejecting_env_def)
qed

section \<open>The integrity verifier\<close>

text \<open>
  Claim C6, as the code has it. \<open>verifyBackup\<close> always resolves to a boolean, and the
  verdict is true exactly when the path exists, the consistency-check command runs without
  error, and its trimmed output is the single token \<open>ok\<close>. So it is false for a path that
  does not exist, for a failed invocation, and for any other output. For a file that
  exists, a zero-byte file or one with a damaged header included, the verdict is the
  engine's alone: the code inspects neither the size nor the header.
\<close>

theorem verifyBackup_verdict:
  "verifyBackup e fs p
     = Inr (existsSync fs p
            \<and> (case exec_query e fs
                      (''sqlite3 '' @ dquote @ p @ dquote @ '' '' @ dquote @ ''PRAGMA integrity_check;'' @ dquote) of
                  Inl err \<Rightarrow> False
                | Inr stdout \<Rightarrow> trim stdout = ''ok''))"
  by (simp add: verifyBackup_def split: sum.splits)

theorem verifyBackup_verdict_witness:
  "verifyBackup example_env example_fs ''/srv/backups/missing.db'' = Inr False
   \<and> verifyBackup rejecting_env example_fs ''/srv/backups/backup1.db'' = Inr False
   \<and> verifyBackup corrupt_env example_fs ''/srv/backups/backup1.db'' = Inr False
   \<and> verifyBackup example_env example_fs ''/srv/backups/backup1.db'' = Inr True"
  using verifyBackup_verdict [of example_env example_fs "''/srv/backups/missing.db''"]
    verifyBackup_verdict [of rejecting_env example_fs "''/srv/backups/backup1.db''"]
    verifyBackup_verdict [of corrupt_env example_fs "''/srv/backups/backup1.db''"]
    verifyBackup_verdict [of example_env example_fs "''/srv/backups/backup1.db''"]
  by (simp add: existsSync_def isFile_def example_fs_def example_env_def rejecting_env_def
      corrupt_env_def trim_def isWhiteSpace_def)

text \<open>
  The claim as the specification states it promises false for every zero-byte file. With
  an engine that takes a zero-byte file for an empty database and answers \<open>ok\<close>, the
  verdict is true.
\<close>

theorem verifyBackup_zero_byte_counterexample:
  "statSync empty_file_fs ''/srv/backups/empty.db'' = Inr \<lparr>size_st = 0, mtime = 100, birthtime = 100\<rparr>
   \<and> verifyBackup example_env empty_file_fs ''/srv/backups/empty.db'' = Inr True"
  by (simp add: statSync_def verifyBackup_def existsSync_def isFile_def empty_file_fs_def
      example_env_def trim_def isWhiteSpace_def)

section \<open>Creating a backup\<close>




text \<open>
  Claim C8, as the code has it. When the backup step has succeeded, \<open>verifyIntegrity\<close> is
  enabled and the verifier rejects the file just written, \<open>createBackup\<close> calls
  \<open>unlinkSync\<close> on the backup path before it returns a failure result. If the deletion
  goes through, the result carries \<open>Backup failed integrity check\<close> and no file is left
  at the backup path. If the deletion itself throws, the result carries the deletion's
  error instead and the filesystem stays as the backup step left it. So a file remains at
  the backup path only where its removal is refused.
\<close>

theorem createBackup_failed_integrity:
  assumes "verifyIntegrity options \<noteq> Some False"
    and "bp = path_join (backupDirectory this)
                (generateBackupFilename e this (filename options) (default_to True (includeTimestamp options)))"
    and "performBackup e this fs (default_to ''backup'' (backupMethod options)) bp = (Inr (), fs1)"
    and "verifyBackup e fs1 bp = Inr False"
  shows "(deletable fs1 bp \<longrightarrow>
            createBackup e this fs options
              = (Inr (BackupFailure ''Backup failed integrity check'' (toISOString e (now e))),
                 fs1\<lparr>entries := AList.delete bp (entries fs1)\<rparr>))
       \<and> (\<not> deletable fs1 bp \<longrightarrow>
            createBackup e this fs options
              = (Inr (BackupFailure (unlink_message fs1 bp) (toISOString e (now e))), fs1))
       \<and> (bp \<notin> set (locked fs1) \<longrightarrow> \<not> isFile (snd (createBackup e this fs options)) bp)"
proof -
  have verify: "default_to True (verifyIntegrity options)"
    using assms(1) by (cases "verifyIntegrity options") (auto simp: default_to_def)
  have ok: "createBackup e this fs options
              = (Inr (BackupFailure ''Backup failed integrity check'' (toISOString e (now e))),
                 fs1\<lparr>entries := AList.delete bp (entries fs1)\<rparr>)" if "deletable fs1 bp"
    using that assms(2-4) verify
    by (simp add: createBackup_def createBackup_try_def Let_def unlinkSync_deletable)
  have bad: "createBackup e this fs options
              = (Inr (BackupFailure (unlink_message fs1 bp) (toISOString e (now e))), fs1)"
    if "\<not> deletable fs1 bp"
    using that assms(2-4) verify
    by (simp add: createBackup_def createBackup_try_def Let_def unlinkSync_not_deletable)
  have gone: "\<not> isFile (snd (createBackup e this fs options)) bp" if "bp \<notin> set (locked fs1)"
  proof (cases "deletable fs1 bp")
    case True
    with ok show ?thesis by (simp add: isFile_delete)
  next
    case False
    with that have "\<not> isFile fs1 bp" by (simp add: deletable_def)
    with bad [OF False] show ?thesis by simp
  qed
  from ok bad gone show ?thesis by blast
qed

theorem createBackup_failed_integrity_witness:
  "verifyIntegrity \<lparr>filename = Some ''x'', includeTimestamp = None, verifyIntegrity = None, backupMethod = Some ''copy''\<rparr>
     \<noteq> Some False
   \<and> (\<exists>fs1. performBackup rejecting_env example_config example_fs ''copy'' ''/srv/backups/x.db'' = (Inr (), fs1)
          \<and> verifyBackup rejecting_env fs1 ''/srv/backups/x.db'' = Inr False
          \<and> deletable fs1 ''/srv/backups/x.db'')
   \<and> createBackup rejecting_env example_config example_fs
        \<lparr>filename = Some ''x'', includeTimestamp = None, verifyIntegrity = None, backupMethod = Some ''copy''\<rparr>
       = (Inr (BackupFailure ''Backup failed integrity check'' ''2023-11-14T22:13:20.000Z''), example_fs)
   \<and> \<not> isFile example_fs ''/srv/backups/x.db''"
proof -
  let ?options = "\<lparr>filename = Some ''x'', includeTimestamp = None, verifyIntegrity = None, backupMethod = Some ''copy''\<rparr>"
  let ?fs1 = "example_fs\<lparr>entries := entries example_fs @
                [(''/srv/backups/x.db'', \<lparr>data = ''SQLite format 3'', mtimeMs = 1700000000000, birthtimeMs = 1700000000000\<rparr>)]\<rparr>"
  have a: "verifyIntegrity ?options \<noteq> Some False" by simp
  have b: "''/srv/backups/x.db'' = path_join (backupDirectory example_config)
             (generateBackupFilename rejecting_env example_config (filename ?options)
                (default_to True (includeTimestamp ?options)))"
    by (simp add: path_join_def example_config_def generateBackupFilename_def truthy_str_def
        default_to_def endsWith_def)
  have c: "performBackup rejecting_env example_config example_fs (default_to ''backup'' (backupMethod ?options))
             ''/srv/backups/x.db'' = (Inr (), ?fs1)"
    by (simp add: performBackup_def backupUsingCopy_def copyFileSync_def default_to_def dirname_def
        example_config_def example_fs_def rejecting_env_def)
  have d: "verifyBackup rejecting_env ?fs1 ''/srv/backups/x.db'' = Inr False"
    by (simp add: verifyBackup_def rejecting_env_def)
  have del: "deletable ?fs1 ''/srv/backups/x.db''"
    by (simp add: deletable_def isFile_def example_fs_def)
  have same_fs: "?fs1\<lparr>entries := AList.delete ''/srv/backups/x.db'' (entries ?fs1)\<rparr> = example_fs"
    by (simp add: example_fs_def)
  have gone: "\<not> isFile example_fs ''/srv/backups/x.db''"
    by (simp add: isFile_def example_fs_def)
  have c': "performBackup rejecting_env example_config example_fs ''copy'' ''/srv/backups/x.db'' = (Inr (), ?fs1)"
    using c by (simp add: default_to_def)
  have run: "createBackup rejecting_env example_config example_fs ?options
       = (Inr (BackupFailure ''Backup failed integrity check'' ''2023-11-14T22:13:20.000Z''), example_fs)"
    using createBackup_failed_integrity [OF a b c d] del same_fs
    by (simp add: rejecting_env_def)
  from a c' d del run gone show ?thesis by blast
qed

text \<open>
  The claim as the specification states it fails where the removal is refused: the copy
  overwrites the existing snapshot \<open>a.db\<close>, the verifier rejects it, \<open>unlinkSync\<close> throws,
  and the rejected file is still in the backup directory when the failure is returned.
\<close>

theorem createBackup_failed_integrity_counterexample:
  "fst (createBackup rejecting_env example_config locked_fs
          \<lparr>filename = Some ''a'', includeTimestamp = None, verifyIntegrity = Some True, backupMethod = Some ''copy''\<rparr>)
     = Inr (BackupFailure (''EACCES: permission denied, unlink '' @ squote @ ''/srv/backups/a.db'' @ squote)
              ''2023-11-14T22:13:20.000Z'')
   \<and> isFile (snd (createBackup rejecting_env example_config locked_fs
          \<lparr>filename = Some ''a'', includeTimestamp = None, verifyIntegrity = Some True, backupMethod = Some ''copy''\<rparr>))
        ''/srv/backups/a.db''
   \<and> verifyBackup rejecting_env (snd (createBackup rejecting_env example_config locked_fs
          \<lparr>filename = Some ''a'', includeTimestamp = None, verifyIntegrity = Some True, backupMethod = Some ''copy''\<rparr>))
        ''/srv/backups/a.db'' = Inr False"
proof -
  let ?options = "\<lparr>filename = Some ''a'', includeTimestamp = None, verifyIntegrity = Some True, backupMethod = Some ''copy''\<rparr>"
  let ?fs1 = "locked_fs\<lparr>entries := AList.update ''/srv/backups/a.db''
                 \<lparr>data = ''SQLite format 3'', mtimeMs = 1700000000000, birthtimeMs = 100\<rparr> (entries locked_fs)\<rparr>"
  have name: "generateBackupFilename rejecting_env example_config (Some ''a'') True = ''a.db''"
    by (simp add: generateBackupFilename_def truthy_str_def default_to_def endsWith_def)
  have copy: "performBackup rejecting_env example_config locked_fs ''copy'' ''/srv/backups/a.db'' = (Inr (), ?fs1)"
    by (simp add: performBackup_def backupUsingCopy_def copyFileSync_def dirname_def
        example_config_def locked_fs_def rejecting_env_def)
  have verdict: "verifyBackup rejecting_env fs ''/srv/backups/a.db'' = Inr False" for fs
    by (simp add: verifyBackup_def rejecting_env_def)
  have unlink: "unlinkSync ?fs1 ''/srv/backups/a.db''
                  = Inl (Error (''EACCES: permission denied, unlink '' @ squote @ ''/srv/backups/a.db'' @ squote))"
    by (simp add: unlinkSync_def isFile_def locked_fs_def)
  have run: "createBackup rejecting_env example_config locked_fs ?options
       = (Inr (BackupFailure (''EACCES: permission denied, unlink '' @ squote @ ''/srv/backups/a.db'' @ squote)
              ''2023-11-14T22:13:20.000Z''), ?fs1)"
    using name copy verdict unlink
    by (simp add: createBackup_def createBackup_try_def Let_def default_to_def path_join_def
        example_config_def) (simp add: rejecting_env_def)
  have still: "isFile ?fs1 ''/srv/backups/a.db''"
    by (simp add: isFile_def locked_fs_def)
  from run still verdict show ?thesis by simp
qed

section \<open>Backup filenames\<close>

lemma endsWith_append: "endsWith (s @ suf) suf"
  by (simp add: endsWith_def)

lemma replace_unsafe_safe:
  "CHR '':'' \<notin> set (replace_unsafe s) \<and> CHR ''.'' \<notin> set (replace_unsafe s)"
  by (auto simp: replace_unsafe_def)

text \<open>
  Claim C9. The generated filename always ends in \<open>.db\<close>. A custom filename (a non-empty
  string: the empty string is falsy and counts as not given) is returned unchanged when it
  already ends in \<open>.db\<close> and gets \<open>.db\<close> appended otherwise. Without a custom filename and
  with \<open>includeTimestamp\<close>, the name is the database's base name, \<open>-backup-\<close>, the ISO
  timestamp of the call in which every \<open>:\<close> and \<open>.\<close> has become \<open>-\<close> and every other
  character is kept, and \<open>.db\<close>.
\<close>

theorem generateBackupFilename_extension:
  "endsWith (generateBackupFilename e this customFilename inclTimestamp) ''.db''
   \<and> (\<forall>c. customFilename = Some c \<and> c \<noteq> [] \<longrightarrow>
         generateBackupFilename e this customFilename inclTimestamp
           = (if endsWith c ''.db'' then c else c @ ''.db''))
   \<and> (\<not> truthy_str customFilename \<and> inclTimestamp \<longrightarrow>
         generateBackupFilename e this customFilename inclTimestamp
           = basename (databasePath this) ''.db'' @ ''-backup-''
               @ replace_unsafe (toISOString e (now e)) @ ''.db''
       \<and> replace_unsafe (toISOString e (now e))
           = map (\<lambda>c. if c = CHR '':'' \<or> c = CHR ''.'' then CHR ''-'' else c) (toISOString e (now e))
       \<and> CHR '':'' \<notin> set (replace_unsafe (toISOString e (now e)))
       \<and> CHR ''.'' \<notin> set (replace_unsafe (toISOString e (now e))))"
proof -
  have ext: "endsWith (generateBackupFilename e this customFilename inclTimestamp) ''.db''"
  proof (cases "truthy_str customFilename")
    case True
    then show ?thesis
      using endsWith_append [of "default_to [] customFilename" "''.db''"]
      by (simp add: generateBackupFilename_def Let_def)
  next
    case False
    have "endsWith ((basename (databasePath this) ''.db'' @ ''-backup''
                      @ (if inclTimestamp then ''-'' @ replace_unsafe (toISOString e (now e)) else [])) @ ''.db'') ''.db''"
      by (rule endsWith_append)
    with False show ?thesis
      by (simp add: generateBackupFilename_def Let_def)
  qed
  have custom: "\<forall>c. customFilename = Some c \<and> c \<noteq> [] \<longrightarrow>
         generateBackupFilename e this customFilename inclTimestamp
           = (if endsWith c ''.db'' then c else c @ ''.db'')"
    by (simp add: generateBackupFilename_def truthy_str_def default_to_def)
  have auto_name: "\<not> truthy_str customFilename \<and> inclTimestamp \<longrightarrow>
         generateBackupFilename e this customFilename inclTimestamp
           = basename (databasePath this) ''.db'' @ ''-backup-''
               @ replace_unsafe (toISOString e (now e)) @ ''.db''"
    by (simp add: generateBackupFilename_def Let_def)
  show ?thesis
    using ext custom auto_name replace_unsafe_safe [of "toISOString e (now e)"]
    by (simp add: replace_unsafe_def)
qed

theorem generateBackupFilename_extension_witness:
  "generateBackupFilename example_env example_config (Some ''backup1'') False = ''backup1.db''
   \<and> generateBackupFilename example_env example_config (Some ''nightly.db'') True = ''nightly.db''
   \<and> \<not> truthy_str None
   \<and> generateBackupFilename example_env example_config None True
       = ''app-backup-2023-11-14T22-13-20-000Z.db''"
  using generateBackupFilename_extension [of example_env example_config "Some ''backup1''" False]
    generateBackupFilename_extension [of example_env example_config "Some ''nightly.db''" True]
    generateBackupFilename_extension [of example_env example_config None True]
  by (simp add: endsWith_def truthy_str_def example_env_def example_config_def basename_def
      replace_unsafe_def)

section \<open>Unknown backup methods\<close>

text \<open>
  Claim C10. For a method string other than \<open>backup\<close>, \<open>copy\<close> and \<open>vacuum\<close>, whatever the
  other options are, \<open>createBackup\<close> resolves to the failure result whose message is
  \<open>Unknown backup method:\<close> followed by the method given, and hands back the filesystem
  it was given: no file has been created, and nothing is thrown to the caller.
\<close>

theorem createBackup_unknown_method:
  assumes "m \<noteq> ''backup''" and "m \<noteq> ''copy''" and "m \<noteq> ''vacuum''"
  shows "createBackup e this fs (options\<lparr>backupMethod := Some m\<rparr>)
           = (Inr (BackupFailure (''Unknown backup method: '' @ m) (toISOString e (now e))), fs)"
  using assms by (simp add: createBackup_def createBackup_try_def performBackup_def default_to_def Let_def)

theorem createBackup_unknown_method_witness:
  "''zip'' \<noteq> ''backup'' \<and> ''zip'' \<noteq> ''copy'' \<and> ''zip'' \<noteq> ''vacuum''
   \<and> createBackup example_env example_config example_fs
        \<lparr>filename = None, includeTimestamp = None, verifyIntegrity = None, backupMethod = Some ''zip''\<rparr>
      = (Inr (BackupFailure ''Unknown backup method: zip'' ''2023-11-14T22:13:20.000Z''), example_fs)"
proof -
  have a: "''zip'' \<noteq> ''backup''" and b: "''zip'' \<noteq> ''copy''" and c: "''zip'' \<noteq> ''vacuum''"
    by simp_all
  show ?thesis
    using createBackup_unknown_method [OF a b c, of example_env example_config example_fs
        "\<lparr>filename = None, includeTimestamp = None, verifyIntegrity = None, backupMethod = None\<rparr>"]
    by (simp add: example_env_def)
qed

end
